theory Spec2Isabelle
  imports Main
begin

text \<open>
  A model of \<^verbatim>\<open>src/ios-device.cpp\<close>: the syslog line splitter, the Device class, the
  enrichment thread \<^verbatim>\<open>getDeviceInfo\<close>, the notification callback, the run-loop pump
  and the \<^verbatim>\<open>log\<close> binding. Line numbers refer to that file.
\<close>

section \<open>The syslog line splitter (LogSocketCallback)\<close>

text \<open>
  The bytes of a chunk are \<open>char\<close>s. The two bytes the splitter tests for are the
  C character constants \<^verbatim>\<open>'\0'\<close> and \<^verbatim>\<open>'\n'\<close>.
\<close>

definition NUL :: char where
  "NUL = CHR 0x00"

definition LF :: char where
  "LF = CHR 0x0A"

text \<open>
  Lines 553-558: the loop that steps over leading null bytes. The argument is the
  rest of the chunk (\<open>buffer\<close> with \<open>length\<close> bytes left, \<open>length > 0\<close>);
  \<open>None\<close> is the \<^verbatim>\<open>return\<close> taken when \<open>length\<close> drops to 0.
\<close>

fun skip_nul :: "string \<Rightarrow> string option" where
  "skip_nul [] = Some []"
| "skip_nul (b # bs) =
     (if b = NUL then (if bs = [] then None else skip_nul bs) else Some (b # bs))"

text \<open>
  Lines 562-577: the inner loop. The first argument is \<open>buffer\<close> from index \<open>i\<close>
  on, the second the bytes \<open>str[0..j)\<close> collected so far. The result is the
  arguments of the callback invocations made, in order, and the buffer from the
  final \<open>i\<close> on. The callback receives the C string \<open>str\<close>, which ends at
  \<open>str[j]\<close>, set to null in line 565; it is invoked only if \<open>j > 0\<close>.
\<close>

fun scan_line :: "string \<Rightarrow> string \<Rightarrow> string list \<times> string" where
  "scan_line [] str = ([], [])"
| "scan_line (c # cs) str =
     (if c = LF \<or> c = NUL then
        (if c = NUL then ((if str = [] then [] else [str]), cs)
         else (case scan_line cs [] of
                 (out, rest) \<Rightarrow> ((if str = [] then [] else [str]) @ out, rest)))
      else scan_line cs (str @ [c]))"

lemma skip_nul_length: "skip_nul buf = Some b \<Longrightarrow> length b \<le> length buf"
  by (induction buf) (auto split: if_splits)

lemma skip_nul_nonempty: "buf \<noteq> [] \<Longrightarrow> skip_nul buf = Some b \<Longrightarrow> b \<noteq> []"
  by (induction buf) (auto split: if_splits)

lemma scan_line_length: "length (snd (scan_line b str)) \<le> length b"
proof (induction b str rule: scan_line.induct)
  case (1 str)
  show ?case by simp
next
  case (2 c cs str)
  show ?case
  proof (cases "c = NUL")
    case True
    then show ?thesis by simp
  next
    case notnul: False
    show ?thesis
    proof (cases "c = LF")
      case True
      with notnul 2(1) show ?thesis
        by (simp split: prod.splits) (metis le_SucI snd_conv)
    next
      case False
      with notnul 2(2) show ?thesis by simp
    qed
  qed
qed

lemma scan_line_shorter: "b \<noteq> [] \<Longrightarrow> length (snd (scan_line b str)) < length b"
proof (cases b)
  case Nil
  assume "b \<noteq> []"
  with Nil show ?thesis by simp
next
  case (Cons c cs)
  have a: "length (snd (scan_line cs [])) \<le> length cs"
    by (rule scan_line_length)
  have b: "length (snd (scan_line cs (str @ [c]))) \<le> length cs"
    by (rule scan_line_length)
  from Cons a b show ?thesis
    by (auto split: prod.splits simp: less_Suc_eq_le)
qed

text \<open>
  Lines 552-581: the outer loop over the chunk. The result is the list of strings
  the host callback is invoked with, in invocation order.
\<close>

function LogSocketCallback :: "string \<Rightarrow> string list" where
  "LogSocketCallback buf =
     (if buf = [] then []
      else (case skip_nul buf of
              None \<Rightarrow> []
            | Some b \<Rightarrow> (case scan_line b [] of
                           (out, rest) \<Rightarrow> out @ LogSocketCallback rest)))"
  by pat_completeness auto
termination
proof (relation "measure length", goal_cases)
  case 1
  show ?case by simp
next
  case (2 buf b out rest)
  from 2(1,2) have "b \<noteq> []"
    by (rule skip_nul_nonempty)
  then have "length (snd (scan_line b [])) < length b"
    by (rule scan_line_shorter)
  moreover from 2(3)[symmetric] have "snd (scan_line b []) = rest"
    by simp
  moreover from 2(2) have "length b \<le> length buf"
    by (rule skip_nul_length)
  ultimately show ?case by simp
qed

text \<open>
  CFSocket invokes the callback once per chunk of data read from the socket. The callback
  allocates \<open>str\<close> afresh in line 546 and writes to no field of the Device and to no
  global, so what the host receives for a sequence of chunks is the concatenation of what
  it receives for each.
\<close>

definition log_deliveries :: "string list \<Rightarrow> string list" where
  "log_deliveries chunks = concat (map LogSocketCallback chunks)"

text \<open>
  The splitter in the words of the specification: the bytes are cut at every newline and
  null byte; \<open>complete_lines buf cur\<close> lists the lines that a terminator completes
  (\<open>cur\<close> is the line begun so far). What follows the last terminator completes no line.
\<close>

fun complete_lines :: "string \<Rightarrow> string \<Rightarrow> string list" where
  "complete_lines [] cur = []"
| "complete_lines (c # cs) cur =
     (if c = LF \<or> c = NUL then cur # complete_lines cs []
      else complete_lines cs (cur @ [c]))"

definition no_terminator :: "string \<Rightarrow> bool" where
  "no_terminator t = list_all (\<lambda>c. c \<noteq> LF \<and> c \<noteq> NUL) t"

section \<open>The external MobileDevice subsystem\<close>

text \<open>
  \<^verbatim>\<open>mobiledevice.h\<close> is not part of the sources. The result codes that the source names
  are constructors here; any other code is \<open>MDERR_code\<close>. The source only compares
  codes for equality.
\<close>

datatype mach_error_t =
    MDERR_OK
  | MDERR_SYSCALL
  | MDERR_QUERY_FAILED
  | MDERR_INVALID_ARGUMENT
  | MDERR_DICT_NOT_LOADED
  | MDERR_code int

datatype adnci_msg = ADNCI_MSG_CONNECTED | ADNCI_MSG_DISCONNECTED | ADNCI_MSG_other int

text \<open>
  An \<^verbatim>\<open>am_device\<close> handle stands for what the subsystem answers when called with it.
  Each field is the result of the function of that name. \<open>AMDeviceCopyValue\<close> is the
  C string that \<^verbatim>\<open>cfstring_to_cstr\<close> obtains from the value of a key, \<open>None\<close> when
  the value or its conversion is \<^verbatim>\<open>NULL\<close>; \<open>AMDeviceCopyValue_HostAttached\<close> is the
  number stored under the key "HostAttached", \<open>None\<close> when the call returns
  \<^verbatim>\<open>NULL\<close>. The identifier is taken to be present and convertible.
\<close>

record am_device =
  AMDeviceCopyDeviceIdentifier :: string
  AMDeviceConnect :: mach_error_t
  AMDeviceIsPaired :: int
  AMDevicePair :: int
  AMDeviceValidatePairing :: mach_error_t
  AMDeviceStartSession :: mach_error_t
  AMDeviceCopyValue :: "string \<Rightarrow> string option"
  AMDeviceCopyValue_HostAttached :: "int option"
  AMDeviceStartService :: mach_error_t
  service_conn :: int

record am_device_notification_callback_info =
  dev :: am_device
  msg :: adnci_msg

section \<open>The Device class\<close>

text \<open>
  The exceptions of \<^verbatim>\<open>connect\<close> and \<^verbatim>\<open>startService\<close>, one constructor per
  \<^verbatim>\<open>throw\<close>, in the order of the source.
\<close>

datatype runtime_error =
    Connect_setsockopt
  | Connect_query_failed
  | Connect_invalid_argument
  | Connect_failed mach_error_t
  | Pair_failed
  | Not_paired_null
  | Not_paired_load_dict
  | Not_paired mach_error_t
  | Session_no_lockdown
  | Session_load_dict
  | Session_failed mach_error_t
  | Service_syscall string mach_error_t
  | Service_invalid_argument string mach_error_t
  | Service_failed string mach_error_t

text \<open>
  Pointers are natural numbers; \<open>None\<close> is \<^verbatim>\<open>NULL\<close>. \<open>logConnection\<close> is not
  initialised by the constructor (\<open>None\<close>).
\<close>

record Device =
  handle :: am_device
  props :: "string \<rightharpoonup> string"
  connected :: int
  udid :: string
  hostConnected :: bool
  logConnection :: "int option"
  logSocket :: "nat option"
  logSource :: "nat option"
  logCallback :: "nat option"

text \<open>
  A byte sequence read as a C string: the bytes before the first null byte. This is what
  \<^verbatim>\<open>std::string(str)\<close>, \<^verbatim>\<open>CFStringCreateWithCString\<close> and the \<^verbatim>\<open>%s\<close> of
  \<^verbatim>\<open>snprintf\<close> take from a \<^verbatim>\<open>char*\<close>.
\<close>

definition c_str :: "string \<Rightarrow> string" where
  "c_str bytes = takeWhile (\<lambda>c. c \<noteq> NUL) bytes"

text \<open>
  Lines 117-125. The dictionary key \<open>udid\<close> is the identifier itself; the property
  is the C string made from it.
\<close>

definition Device_new :: "am_device \<Rightarrow> Device" where
  "Device_new d =
     \<lparr>handle = d,
      props = [''udid'' \<mapsto> c_str (AMDeviceCopyDeviceIdentifier d)],
      connected = 0,
      udid = AMDeviceCopyDeviceIdentifier d,
      hostConnected = False,
      logConnection = None,
      logSocket = None,
      logSource = None,
      logCallback = None\<rparr>"

text \<open>
  The methods return the updated object and the names of the MobileDevice functions they
  called, in call order; \<open>Some e\<close> is the exception thrown.

  Lines 148-190. The counter is incremented before anything can throw.
\<close>

definition connect :: "Device \<Rightarrow> runtime_error option \<times> Device \<times> string list" where
  "connect this =
     (let d = this\<lparr>connected := connected this + 1\<rparr>; h = handle this in
      if connected this > 0 then (None, d, [])
      else if AMDeviceConnect h = MDERR_SYSCALL then
        (Some Connect_setsockopt, d, [''AMDeviceConnect''])
      else if AMDeviceConnect h = MDERR_QUERY_FAILED then
        (Some Connect_query_failed, d, [''AMDeviceConnect''])
      else if AMDeviceConnect h = MDERR_INVALID_ARGUMENT then
        (Some Connect_invalid_argument, d, [''AMDeviceConnect''])
      else if AMDeviceConnect h \<noteq> MDERR_OK then
        (Some (Connect_failed (AMDeviceConnect h)), d, [''AMDeviceConnect''])
      else
        (let paired = [''AMDeviceConnect'', ''AMDeviceIsPaired'']
                        @ (if AMDeviceIsPaired h \<noteq> 1 then [''AMDevicePair''] else []) in
         if AMDeviceIsPaired h \<noteq> 1 \<and> AMDevicePair h \<noteq> 1 then
           (Some Pair_failed, d, paired)
         else if AMDeviceValidatePairing h = MDERR_INVALID_ARGUMENT then
           (Some Not_paired_null, d, paired @ [''AMDeviceValidatePairing''])
         else if AMDeviceValidatePairing h = MDERR_DICT_NOT_LOADED then
           (Some Not_paired_load_dict, d, paired @ [''AMDeviceValidatePairing''])
         else if AMDeviceValidatePairing h \<noteq> MDERR_OK then
           (Some (Not_paired (AMDeviceValidatePairing h)), d,
            paired @ [''AMDeviceValidatePairing''])
         else
           (let started = paired @ [''AMDeviceValidatePairing'', ''AMDeviceStartSession''] in
            if AMDeviceStartSession h = MDERR_INVALID_ARGUMENT then
              (Some Session_no_lockdown, d, started)
            else if AMDeviceStartSession h = MDERR_DICT_NOT_LOADED then
              (Some Session_load_dict, d, started)
            else if AMDeviceStartSession h \<noteq> MDERR_OK then
              (Some (Session_failed (AMDeviceStartSession h)), d, started)
            else (None, d, started))))"

text \<open>Lines 197-203. With \<open>force\<close> the decrement is not evaluated.\<close>

definition disconnect :: "bool \<Rightarrow> Device \<Rightarrow> Device \<times> string list" where
  "disconnect force this =
     (if force then (this\<lparr>connected := 0\<rparr>, [''AMDeviceStopSession'', ''AMDeviceDisconnect''])
      else if connected this - 1 \<le> 0 then
        (this\<lparr>connected := 0\<rparr>, [''AMDeviceStopSession'', ''AMDeviceDisconnect''])
      else (this\<lparr>connected := connected this - 1\<rparr>, []))"

text \<open>Lines 211-220.\<close>

definition startService :: "string \<Rightarrow> Device \<Rightarrow> runtime_error option \<times> int option" where
  "startService serviceName this =
     (let rval = AMDeviceStartService (handle this) in
      if rval = MDERR_SYSCALL then (Some (Service_syscall serviceName rval), None)
      else if rval = MDERR_INVALID_ARGUMENT then
        (Some (Service_invalid_argument serviceName rval), None)
      else if rval \<noteq> MDERR_OK then (Some (Service_failed serviceName rval), None)
      else (None, Some (service_conn (handle this))))"

text \<open>Lines 225-235.\<close>

definition set_prop :: "string \<Rightarrow> string \<Rightarrow> Device \<Rightarrow> Device" where
  "set_prop key ident this =
     (case AMDeviceCopyValue (handle this) ident of
        None \<Rightarrow> this
      | Some v \<Rightarrow> this\<lparr>props := (props this)(key \<mapsto> v)\<rparr>)"

text \<open>Lines 258-267: the ten properties, as (key, MobileDevice key).\<close>

definition info_keys :: "(string \<times> string) list" where
  "info_keys =
     [(''name'', ''DeviceName''),
      (''buildVersion'', ''BuildVersion''),
      (''cpuArchitecture'', ''CPUArchitecture''),
      (''deviceClass'', ''DeviceClass''),
      (''deviceColor'', ''DeviceColor''),
      (''hardwareModel'', ''HardwareModel''),
      (''modelNumber'', ''ModelNumber''),
      (''productType'', ''ProductType''),
      (''productVersion'', ''ProductVersion''),
      (''serialNumber'', ''SerialNumber'')]"

definition set_info :: "Device \<Rightarrow> Device" where
  "set_info this = foldl (\<lambda>d (key, ident). set_prop key ident d) this info_keys"

section \<open>The globals and what the module does to the outside\<close>

datatype lock = Unlocked | Shared | Exclusive

text \<open>
  What the module does to its surroundings: calls into MobileDevice on the handle of the
  Device at an address, allocation and release of Devices, Listeners and CoreFoundation
  objects, calls of the emitter's \<^verbatim>\<open>emit\<close> (name and string argument), thread
  starts and condition-variable notifications.
\<close>

datatype action =
    Call nat string
  | New_Device nat
  | Delete_Device nat
  | New_Listener nat nat
  | Delete_Listener nat
  | CFSocketCreateWithNative nat
  | CFSocketCreateRunLoopSource nat
  | CFRunLoopAddSource nat
  | CFRelease nat
  | Emit string "string option"
  | Thread nat
  | Notify_one

text \<open>Each action is recorded with the values of the globals at the time it is done.\<close>

record event =
  act :: action
  lock_at :: lock
  changed_at :: bool
  pending_at :: int

text \<open>
  Lines 32-40. \<open>heap\<close> holds the Device objects made by \<^verbatim>\<open>new\<close>, by address;
  \<open>connectedDevices\<close> maps an identifier to a \<^verbatim>\<open>Device*\<close>. \<open>emitter\<close> tells whether
  the persistent handle is non-empty. \<open>deviceMutex\<close> is how the running thread holds the
  shared mutex. \<open>threads\<close> are the detached threads started and not yet run, each the
  \<^verbatim>\<open>Device*\<close> argument of \<^verbatim>\<open>getDeviceInfo\<close>. \<open>next_ref\<close> is the next fresh address.
  \<open>socket_ok\<close> and \<open>source_ok\<close> tell whether CoreFoundation returns a non-\<^verbatim>\<open>NULL\<close>
  socket and run-loop source.
\<close>

record state =
  heap :: "nat \<rightharpoonup> Device"
  connectedDevices :: "string \<rightharpoonup> nat"
  emitter :: bool
  pendingEvents :: int
  devicesChanged :: bool
  deviceMutex :: lock
  threads :: "nat list"
  trace :: "event list"
  next_ref :: nat
  socket_ok :: bool
  source_ok :: bool

definition init :: state where
  "init =
     \<lparr>heap = Map.empty,
      connectedDevices = Map.empty,
      emitter = False,
      pendingEvents = 0,
      devicesChanged = False,
      deviceMutex = Unlocked,
      threads = [],
      trace = [],
      next_ref = 0,
      socket_ok = True,
      source_ok = True\<rparr>"

definition perform :: "action \<Rightarrow> state \<Rightarrow> state" where
  "perform a s =
     s\<lparr>trace := trace s @
          [\<lparr>act = a, lock_at = deviceMutex s, changed_at = devicesChanged s,
            pending_at = pendingEvents s\<rparr>]\<rparr>"

definition perform_all :: "action list \<Rightarrow> state \<Rightarrow> state" where
  "perform_all as s = foldl (\<lambda>s a. perform a s) s as"

text \<open>Lines 45-55: \<^verbatim>\<open>debug\<close> emits only if an emitter has been set.\<close>

definition debug :: "string \<Rightarrow> state \<Rightarrow> state" where
  "debug output s = (if emitter s then perform (Emit ''debug'' (Some output)) s else s)"


section \<open>The enrichment thread, the notification callback and the pump\<close>

text \<open>
  Lines 133-141, and the same three statements in lines 411-419 and 659-667: the
  listener is deleted and the run-loop source and the socket are released, each if its
  pointer is not \<^verbatim>\<open>NULL\<close>. The pointers are left as they are.
\<close>

definition release_log :: "Device \<Rightarrow> state \<Rightarrow> state" where
  "release_log d s =
     (let s1 = (case logCallback d of None \<Rightarrow> s | Some l \<Rightarrow> perform (Delete_Listener l) s);
          s2 = (case logSource d of None \<Rightarrow> s1 | Some src \<Rightarrow> perform (CFRelease src) s1)
      in (case logSocket d of None \<Rightarrow> s2 | Some sock \<Rightarrow> perform (CFRelease sock) s2))"

text \<open>
  \<^verbatim>\<open>delete device\<close>: the destructor (lines 130-142) runs \<open>disconnect(true)\<close> and
  releases the log subscription, then the object is gone from the heap.
\<close>

definition Device_delete :: "nat \<Rightarrow> Device \<Rightarrow> state \<Rightarrow> state" where
  "Device_delete p this s =
     (let (d, calls) = disconnect True this;
          s1 = perform_all (map (Call p) calls) s;
          s2 = release_log d s1
      in perform (Delete_Device p) (s2\<lparr>heap := (heap s2)(p := None)\<rparr>))"

text \<open>
  Lines 281-287: the counter goes down unless it is 0 already, and the condition variable
  is notified if it is 0 then.
\<close>

definition release_pending :: "state \<Rightarrow> state" where
  "release_pending s =
     (let s1 = (if pendingEvents s > 0 then s\<lparr>pendingEvents := pendingEvents s - 1\<rparr> else s)
      in if pendingEvents s1 = 0 then perform Notify_one s1 else s1)"

text \<open>
  Lines 278-288: what follows the \<^verbatim>\<open>try\<close> block. \<open>d\<close> is the Device as the block left
  it and \<open>calls\<close> the MobileDevice functions called in the block. The two locks taken in
  lines 243-244 are released when the function returns.
\<close>

definition getDeviceInfo_end :: "nat \<Rightarrow> Device \<Rightarrow> string list \<Rightarrow> state \<Rightarrow> state" where
  "getDeviceInfo_end device d calls s =
     (let (d1, calls1) = disconnect False d;
          s1 = perform_all (map (Call device) (calls @ calls1)) s;
          s2 = s1\<lparr>heap := (heap s1)(device \<mapsto> d1)\<rparr>;
          s3 = release_pending s2
      in s3\<lparr>deviceMutex := Unlocked\<rparr>)"

text \<open>
  Lines 242-288. \<open>None\<close> is the end of the process by an invalid memory access: a
  dangling \<open>device\<close>, or \<^verbatim>\<open>CFNumberGetValue\<close> and \<^verbatim>\<open>CFRelease\<close> applied to the
  \<^verbatim>\<open>NULL\<close> that \<open>AMDeviceCopyValue\<close> returned for "HostAttached" (lines 269-272 do
  not test it; CoreFoundation requires a non-\<^verbatim>\<open>NULL\<close> argument there). This is not
  a C++ exception, so \<^verbatim>\<open>catch (...)\<close> does not see it.
\<close>

definition getDeviceInfo :: "nat \<Rightarrow> state \<Rightarrow> state option" where
  "getDeviceInfo device s =
     (case heap s device of
        None \<Rightarrow> None
      | Some d \<Rightarrow>
          (let s1 = s\<lparr>deviceMutex := Exclusive\<rparr>;
               s2 = s1\<lparr>devicesChanged := True\<rparr>;
               s3 = (if connectedDevices s2 (udid d) = None
                     then s2\<lparr>connectedDevices := (connectedDevices s2)(udid d \<mapsto> device)\<rparr>
                     else s2)
           in (case connect d of
                 (Some e, d1, calls) \<Rightarrow> Some (getDeviceInfo_end device d1 calls s3)
               | (None, d1, calls) \<Rightarrow>
                   (let d2 = set_info d1;
                        calls2 = calls @ map (\<lambda>k. ''AMDeviceCopyValue'') info_keys
                                   @ [''AMDeviceCopyValue'']
                    in (case AMDeviceCopyValue_HostAttached (handle d2) of
                          None \<Rightarrow> None
                        | Some v \<Rightarrow>
                            Some (getDeviceInfo_end device (d2\<lparr>hostConnected := (v = 1)\<rparr>)
                                    calls2 s3))))))"

text \<open>
  \<^verbatim>\<open>device->props["udid"]\<close>: the index operator of \<^verbatim>\<open>std::map\<close> stores an empty
  string under a key that is absent.
\<close>

definition props_udid :: "Device \<Rightarrow> string \<times> Device" where
  "props_udid d =
     (case props d ''udid'' of
        None \<Rightarrow> ([], d\<lparr>props := (props d)(''udid'' \<mapsto> [])\<rparr>)
      | Some u \<Rightarrow> (u, d))"

text \<open>
  Lines 379-424. The shared lock of lines 382-385 is held for the lookup only. In the
  first branch the thread is started and left to run on its own: it is appended to
  \<open>threads\<close>. \<open>None\<close> is a dangling pointer in the dictionary.
\<close>

definition on_device_notification ::
    "am_device_notification_callback_info \<Rightarrow> state \<Rightarrow> state option" where
  "on_device_notification info s =
     (let ident = AMDeviceCopyDeviceIdentifier (dev info);
          exists = (connectedDevices s ident \<noteq> None)
      in if \<not> exists \<and> msg info = ADNCI_MSG_CONNECTED then
           (let device = next_ref s;
                (u, d) = props_udid (Device_new (dev info));
                s1 = perform (New_Device device)
                       (s\<lparr>heap := (heap s)(device \<mapsto> d), next_ref := device + 1\<rparr>);
                s2 = debug (''Device connected, getting device info: '' @ u) s1;
                s3 = (if pendingEvents s2 < 0 then s2\<lparr>pendingEvents := 0\<rparr> else s2);
                s4 = s3\<lparr>pendingEvents := pendingEvents s3 + 1\<rparr>
            in Some (perform (Thread device) (s4\<lparr>threads := threads s4 @ [device]\<rparr>)))
         else if exists \<and> msg info = ADNCI_MSG_DISCONNECTED then
           (case connectedDevices s ident of
              None \<Rightarrow> None
            | Some device \<Rightarrow>
                (case heap s device of
                   None \<Rightarrow> None
                 | Some d0 \<Rightarrow>
                     (let s1 = s\<lparr>deviceMutex := Exclusive\<rparr>;
                          (u, d) = props_udid d0;
                          s2 = debug (''Device disconnected: '' @ u) s1;
                          s3 = s2\<lparr>connectedDevices := (connectedDevices s2)(ident := None)\<rparr>;
                          s4 = release_log d s3;
                          s5 = Device_delete device d s4;
                          s6 = s5\<lparr>devicesChanged := True\<rparr>
                      in Some (s6\<lparr>deviceMutex := Unlocked\<rparr>))))
         else Some s)"

text \<open>
  What happens while the run loop runs, and between calls of the module: a notification
  is delivered to the callback, or a thread not yet run runs \<^verbatim>\<open>getDeviceInfo\<close> from
  its first to its last line (it holds the mutex all the way). \<open>Thread_runs\<close> is the
  oldest such thread, \<open>Thread_of device\<close> the one started for the Device at that
  address; with no such thread nothing happens.
\<close>

datatype step =
    Notification am_device_notification_callback_info
  | Thread_runs
  | Thread_of nat

fun run :: "step list \<Rightarrow> state \<Rightarrow> state option" where
  "run [] s = Some s"
| "run (Notification info # steps) s =
     (case on_device_notification info s of None \<Rightarrow> None | Some s' \<Rightarrow> run steps s')"
| "run (Thread_runs # steps) s =
     (case threads s of
        [] \<Rightarrow> run steps s
      | device # rest \<Rightarrow>
          (case getDeviceInfo device (s\<lparr>threads := rest\<rparr>) of
             None \<Rightarrow> None
           | Some s' \<Rightarrow> run steps s'))"
| "run (Thread_of device # steps) s =
     (if device \<in> set (threads s) then
        (case getDeviceInfo device (s\<lparr>threads := remove1 device (threads s)\<rparr>) of
           None \<Rightarrow> None
         | Some s' \<Rightarrow> run steps s')
      else run steps s)"

text \<open>
  Lines 325-338: what the pump does after the run loop has run.
\<close>

definition pump_emit :: "state \<Rightarrow> state" where
  "pump_emit s =
     (if devicesChanged s then
        (let s1 = debug ''Devices changed, emitting event'' s;
             s2 = s1\<lparr>devicesChanged := False\<rparr>
         in if emitter s2 then perform (Emit ''devicesChanged'' None) s2 else s2)
      else s)"


section \<open>The log binding\<close>

datatype js_value = JS_undefined | JS_string string | JS_function nat | JS_other

datatype js_error =
    Missing_arguments
  | Udid_not_string
  | Udid_empty
  | Not_connected string
  | Callback_not_function
  | Not_host_connected
  | Runtime runtime_error
  | Socket_failed
  | Source_failed

text \<open>The service name, a constant of \<^verbatim>\<open>mobiledevice.h\<close> (see the comment in line 630).\<close>

definition AMSVC_SYSLOG_RELAY :: string where
  "AMSVC_SYSLOG_RELAY = ''com.apple.syslog_relay''"

text \<open>
  Lines 646-674, after the service has been started: \<open>d\<close> is the Device after
  \<open>disconnect\<close>, \<open>l\<close> the new Listener.
\<close>

definition log_install :: "nat \<Rightarrow> Device \<Rightarrow> int option \<Rightarrow> nat \<Rightarrow> state \<Rightarrow> js_error option \<times> state" where
  "log_install deviceObj d connection l s =
     (if \<not> socket_ok s then (Some Socket_failed, s)
      else
        (let socket = next_ref s;
             s1 = perform (CFSocketCreateWithNative socket) (s\<lparr>next_ref := socket + 1\<rparr>)
         in if \<not> source_ok s1 then (Some Source_failed, s1)
            else
              (let source = next_ref s1;
                   s2 = perform (CFSocketCreateRunLoopSource source)
                          (s1\<lparr>next_ref := source + 1\<rparr>);
                   s3 = perform (CFRunLoopAddSource source) s2;
                   s4 = release_log d s3;
                   d1 = d\<lparr>logConnection := connection, logSocket := Some socket,
                          logSource := Some source, logCallback := Some l\<rparr>
               in (None, s4\<lparr>heap := (heap s4)(deviceObj \<mapsto> d1)\<rparr>))))"

text \<open>
  Lines 591-675. The result is the JavaScript error thrown, if any, and the state; \<open>None\<close>
  is a dangling pointer in the dictionary. The emptiness test of line 604 is on the
  JavaScript string; the dictionary is searched for, and the message of line 614 names,
  the C string \<open>udid\<close> of lines 608-610.
\<close>

definition log :: "js_value list \<Rightarrow> state \<Rightarrow> (js_error option \<times> state) option" where
  "log info s =
     (if length info < 2 \<or> info ! 0 = JS_undefined \<or> info ! 1 = JS_undefined then
        Some (Some Missing_arguments, s)
      else
        (case info ! 0 of
           JS_string udidHandle \<Rightarrow>
             (if udidHandle = [] then Some (Some Udid_empty, s)
              else
                (let ident = c_str udidHandle in
                 case connectedDevices s ident of
                   None \<Rightarrow> Some (Some (Not_connected ident), s)
                 | Some deviceObj \<Rightarrow>
                     (case info ! 1 of
                        JS_function f \<Rightarrow>
                          (let l = next_ref s;
                               s1 = perform (New_Listener l f) (s\<lparr>next_ref := l + 1\<rparr>)
                           in (case heap s1 deviceObj of
                                 None \<Rightarrow> None
                               | Some d \<Rightarrow>
                                   (if \<not> hostConnected d then Some (Some Not_host_connected, s1)
                                    else
                                      (case connect d of
                                         (Some e, d1, calls) \<Rightarrow>
                                           Some (Some (Runtime e),
                                             (perform_all (map (Call deviceObj) calls) s1)
                                               \<lparr>heap := (heap s1)(deviceObj \<mapsto> d1)\<rparr>)
                                       | (None, d1, calls) \<Rightarrow>
                                           (case startService AMSVC_SYSLOG_RELAY d1 of
                                              (Some e, connection) \<Rightarrow>
                                                Some (Some (Runtime e),
                                                  (perform_all
                                                     (map (Call deviceObj)
                                                        (calls @ [''AMDeviceStartService''])) s1)
                                                    \<lparr>heap := (heap s1)(deviceObj \<mapsto> d1)\<rparr>)
                                            | (None, connection) \<Rightarrow>
                                                (let (d2, calls2) = disconnect False d1;
                                                     s2 = (perform_all
                                                             (map (Call deviceObj)
                                                                (calls @ [''AMDeviceStartService'']
                                                                   @ calls2)) s1)
                                                            \<lparr>heap := (heap s1)(deviceObj \<mapsto> d2)\<rparr>
                                                 in Some (log_install deviceObj d2 connection l s2)))))))
                      | _ \<Rightarrow> Some (Some Callback_not_function, s))))
         | _ \<Rightarrow> Some (Some Udid_not_string, s)))"

section \<open>The registry in the words of the specification\<close>









section \<open>A device and a session for the examples\<close>

text \<open>
  A device with the identifier \<open>A\<close> that connects, is paired, starts a session and a
  service, has a name and reports that it is attached to the host.
\<close>

definition iphone :: am_device where
  "iphone =
     \<lparr>AMDeviceCopyDeviceIdentifier = ''A'',
      AMDeviceConnect = MDERR_OK,
      AMDeviceIsPaired = 1,
      AMDevicePair = 1,
      AMDeviceValidatePairing = MDERR_OK,
      AMDeviceStartSession = MDERR_OK,
      AMDeviceCopyValue = (\<lambda>k. if k = ''DeviceName'' then Some ''phone'' else None),
      AMDeviceCopyValue_HostAttached = Some 1,
      AMDeviceStartService = MDERR_OK,
      service_conn = 7\<rparr>"


definition attach :: "am_device \<Rightarrow> am_device_notification_callback_info" where
  "attach d = \<lparr>dev = d, msg = ADNCI_MSG_CONNECTED\<rparr>"

definition detach :: "am_device \<Rightarrow> am_device_notification_callback_info" where
  "detach d = \<lparr>dev = d, msg = ADNCI_MSG_DISCONNECTED\<rparr>"

text \<open>
  A state in which the example device is registered as attached to the host, and its
  handle no longer connects.
\<close>

definition iphone_gone :: state where
  "iphone_gone =
     init\<lparr>heap := [0 \<mapsto> (Device_new (iphone\<lparr>AMDeviceConnect := MDERR_SYSCALL\<rparr>))
                              \<lparr>hostConnected := True\<rparr>],
          connectedDevices := [''A'' \<mapsto> 0],
          next_ref := 1\<rparr>"

text \<open>The MobileDevice calls of a trace, each with the state of the mutex at the call.\<close>

definition device_io :: "event list \<Rightarrow> (string \<times> lock) list" where
  "device_io tr =
     concat (map (\<lambda>e. case act e of Call p f \<Rightarrow> [(f, lock_at e)] | _ \<Rightarrow> []) tr)"

text \<open>How often an action occurs in the trace of a state.\<close>

definition times_done :: "action \<Rightarrow> state \<Rightarrow> nat" where
  "times_done a s = count_list (map act (trace s)) a"

text \<open>
  The device is attached, its thread runs, and the host calls \<^verbatim>\<open>log\<close> with the
  identifier and a function.
\<close>

definition iphone_logging :: "(js_error option \<times> state) option" where
  "iphone_logging =
     (case run [Notification (attach iphone), Thread_runs] init of
        None \<Rightarrow> None
      | Some s \<Rightarrow> log [JS_string ''A'', JS_function 5] s)"

section \<open>What the line splitter delivers\<close>

declare LogSocketCallback.simps [simp del]

lemma skip_nul_None_lines:
  "buf \<noteq> [] \<Longrightarrow> skip_nul buf = None \<Longrightarrow>
   filter (\<lambda>l. l \<noteq> []) (complete_lines buf []) = []"
  by (induction buf) (auto split: if_splits)

lemma skip_nul_Some_lines:
  "skip_nul buf = Some b \<Longrightarrow>
   filter (\<lambda>l. l \<noteq> []) (complete_lines buf []) = filter (\<lambda>l. l \<noteq> []) (complete_lines b [])"
  by (induction buf) (auto split: if_splits)

lemma scan_line_lines:
  "filter (\<lambda>l. l \<noteq> []) (complete_lines b str) =
   fst (scan_line b str) @ filter (\<lambda>l. l \<noteq> []) (complete_lines (snd (scan_line b str)) [])"
  by (induction b str rule: scan_line.induct) (auto split: prod.splits)

lemma LogSocketCallback_complete_lines:
  "LogSocketCallback buf = filter (\<lambda>l. l \<noteq> []) (complete_lines buf [])"
proof (induction buf rule: LogSocketCallback.induct)
  case (1 buf)
  show ?case
  proof (cases "buf = []")
    case True
    then show ?thesis by (simp add: LogSocketCallback.simps)
  next
    case ne: False
    show ?thesis
    proof (cases "skip_nul buf")
      case None
      with ne show ?thesis
        using skip_nul_None_lines by (simp add: LogSocketCallback.simps)
    next
      case (Some b)
      obtain out rest where sc: "scan_line b [] = (out, rest)"
        by (cases "scan_line b []")
      from 1[OF ne Some sc[symmetric]]
      have "LogSocketCallback rest = filter (\<lambda>l. l \<noteq> []) (complete_lines rest [])" .
      with ne Some sc skip_nul_Some_lines[OF Some] scan_line_lines[of b "[]"]
      show ?thesis
        by (simp add: LogSocketCallback.simps[of buf])
    qed
  qed
qed

lemma complete_lines_tail:
  "no_terminator t \<Longrightarrow> complete_lines (xs @ t) cur = complete_lines xs cur"
proof (induction xs arbitrary: cur)
  case Nil
  then show ?case
    by (induction t arbitrary: cur) (auto simp: no_terminator_def)
next
  case (Cons a xs)
  then show ?case by simp
qed

lemma complete_lines_terminator:
  "c = LF \<or> c = NUL \<Longrightarrow>
   complete_lines (xs @ c # ys) cur = complete_lines (xs @ [c]) cur @ complete_lines ys []"
  by (induction xs arbitrary: cur) auto

lemma complete_lines_one:
  "no_terminator u \<Longrightarrow> complete_lines (u @ [LF]) cur = [cur @ u]"
  by (induction u arbitrary: cur) (auto simp: no_terminator_def)

lemma LogSocketCallback_after_terminator:
  "c = LF \<or> c = NUL \<Longrightarrow>
   LogSocketCallback (xs @ c # ys) = LogSocketCallback (xs @ [c]) @ LogSocketCallback ys"
  by (simp only: LogSocketCallback_complete_lines complete_lines_terminator[of c xs ys]
        filter_append)

lemma LogSocketCallback_tail:
  "no_terminator t \<Longrightarrow> LogSocketCallback (xs @ t) = LogSocketCallback xs"
  by (simp add: LogSocketCallback_complete_lines complete_lines_tail)

text \<open>
  C1, as stated, would have a null byte end the processing of the chunk: what is delivered
  for a chunk would be what is delivered for the chunk cut after its first null byte. For
  the chunk \<open>ab\<close>, null, \<open>cd\<close>, newline the callback is invoked with \<open>ab\<close> and
  then with \<open>cd\<close>, while the chunk cut after the null byte gives \<open>ab\<close> only.
\<close>

theorem LogSocketCallback_null_goes_on:
  "LogSocketCallback (''ab'' @ [NUL] @ ''cd'' @ [LF]) = [''ab'', ''cd''] \<and>
   LogSocketCallback (''ab'' @ [NUL]) = [''ab''] \<and>
   LogSocketCallback (''ab'' @ [NUL] @ ''cd'' @ [LF]) \<noteq> LogSocketCallback (''ab'' @ [NUL])"
  by (simp add: LogSocketCallback_complete_lines NUL_def LF_def)

text \<open>
  C1, amended: for the chunk \<open>abc\<close>, newline, \<open>def\<close>, null the callback is invoked
  exactly twice, with \<open>abc\<close> and then \<open>def\<close>; for null, null, \<open>hello\<close>, null it is
  invoked exactly once, with \<open>hello\<close>. For every chunk the invocations are the
  non-empty lines that a newline or a null byte completes, each once and in the order of
  arrival, so an empty line is never delivered. A null byte ends the line as a newline
  does, and the bytes after it are processed as a chunk of their own would be.
\<close>

theorem LogSocketCallback_delivers_lines:
  "LogSocketCallback (''abc'' @ [LF] @ ''def'' @ [NUL]) = [''abc'', ''def''] \<and>
   LogSocketCallback ([NUL, NUL] @ ''hello'' @ [NUL]) = [''hello''] \<and>
   LogSocketCallback buf = filter (\<lambda>l. l \<noteq> []) (complete_lines buf []) \<and>
   [] \<notin> set (LogSocketCallback buf) \<and>
   LogSocketCallback (xs @ NUL # ys) = LogSocketCallback (xs @ [NUL]) @ LogSocketCallback ys"
proof -
  have "LogSocketCallback (''abc'' @ [LF] @ ''def'' @ [NUL]) = [''abc'', ''def'']"
    by (simp add: LogSocketCallback_complete_lines NUL_def LF_def)
  moreover have "LogSocketCallback ([NUL, NUL] @ ''hello'' @ [NUL]) = [''hello'']"
    by (simp add: LogSocketCallback_complete_lines NUL_def LF_def)
  moreover have "[] \<notin> set (LogSocketCallback buf)"
    by (simp add: LogSocketCallback_complete_lines)
  moreover have
    "LogSocketCallback (xs @ NUL # ys) = LogSocketCallback (xs @ [NUL]) @ LogSocketCallback ys"
    by (rule LogSocketCallback_after_terminator) simp
  ultimately show ?thesis
    using LogSocketCallback_complete_lines by blast
qed

text \<open>
  C10: the bytes of a chunk after its last newline or null byte are not delivered, and
  they change nothing of what is delivered for the chunks before and after: a chunk with
  such a tail \<open>t\<close> and the chunk without it yield the same invocations, alone and within
  any sequence of chunks. So a line that begins with \<open>t\<close> at the end of one chunk and
  goes on with \<open>u\<close> in the next is not delivered as the line \<open>t @ u\<close>.
\<close>

theorem LogSocketCallback_tail_discarded:
  assumes "no_terminator t" and "no_terminator u" and "t \<noteq> []"
  shows "LogSocketCallback (xs @ t) = LogSocketCallback xs \<and>
         log_deliveries (before @ [xs @ t] @ after) = log_deliveries (before @ [xs] @ after) \<and>
         log_deliveries [t, u @ [LF]] = (if u = [] then [] else [u]) \<and>
         t @ u \<notin> set (log_deliveries [t, u @ [LF]])"
proof -
  have tail: "LogSocketCallback (xs @ t) = LogSocketCallback xs"
    using assms(1) by (rule LogSocketCallback_tail)
  have "LogSocketCallback ([] @ t) = LogSocketCallback []"
    using assms(1) by (rule LogSocketCallback_tail)
  then have first: "LogSocketCallback t = []"
    by (simp add: LogSocketCallback.simps[of "[]"])
  have second: "LogSocketCallback (u @ [LF]) = (if u = [] then [] else [u])"
    using assms(2) by (simp add: LogSocketCallback_complete_lines complete_lines_one)
  have both: "log_deliveries [t, u @ [LF]] = (if u = [] then [] else [u])"
    by (simp add: log_deliveries_def first second)
  have "t @ u \<noteq> u"
    using assms(3) by simp
  with both have "t @ u \<notin> set (log_deliveries [t, u @ [LF]])"
    by simp
  with tail both show ?thesis
    by (simp add: log_deliveries_def)
qed

theorem LogSocketCallback_tail_discarded_witness:
  "no_terminator ''ab'' \<and> no_terminator ''cd'' \<and> ''ab'' \<noteq> [] \<and>
   LogSocketCallback ((''x'' @ [LF]) @ ''ab'') = LogSocketCallback (''x'' @ [LF]) \<and>
   log_deliveries ([] @ [(''x'' @ [LF]) @ ''ab''] @ [''cd'' @ [LF]]) =
     log_deliveries ([] @ [''x'' @ [LF]] @ [''cd'' @ [LF]]) \<and>
   log_deliveries [''ab'', ''cd'' @ [LF]] = [''cd''] \<and>
   ''abcd'' \<notin> set (log_deliveries [''ab'', ''cd'' @ [LF]])"
proof -
  have h1: "no_terminator ''ab''"
    by (simp add: no_terminator_def LF_def NUL_def)
  have h2: "no_terminator ''cd''"
    by (simp add: no_terminator_def LF_def NUL_def)
  have h3: "''ab'' \<noteq> []"
    by simp
  show ?thesis
    using LogSocketCallback_tail_discarded
            [OF h1 h2 h3, of "''x'' @ [LF]" "[]" "[''cd'' @ [LF]]"] h1 h2
    by simp
qed

section \<open>Basic facts about the state\<close>

lemma perform_fields [simp]:
  "heap (perform a s) = heap s"
  "connectedDevices (perform a s) = connectedDevices s"
  "emitter (perform a s) = emitter s"
  "pendingEvents (perform a s) = pendingEvents s"
  "devicesChanged (perform a s) = devicesChanged s"
  "deviceMutex (perform a s) = deviceMutex s"
  "threads (perform a s) = threads s"
  "next_ref (perform a s) = next_ref s"
  "socket_ok (perform a s) = socket_ok s"
  "source_ok (perform a s) = source_ok s"
  by (simp_all add: perform_def)

lemma perform_trace [simp]:
  "trace (perform a s) =
     trace s @ [\<lparr>act = a, lock_at = deviceMutex s, changed_at = devicesChanged s,
                 pending_at = pendingEvents s\<rparr>]"
  by (simp add: perform_def)

lemma perform_all_Nil [simp]: "perform_all [] s = s"
  by (simp add: perform_all_def)

lemma perform_all_Cons [simp]: "perform_all (a # as) s = perform_all as (perform a s)"
  by (simp add: perform_all_def)

lemma perform_all_fields [simp]:
  "heap (perform_all as s) = heap s"
  "connectedDevices (perform_all as s) = connectedDevices s"
  "emitter (perform_all as s) = emitter s"
  "pendingEvents (perform_all as s) = pendingEvents s"
  "devicesChanged (perform_all as s) = devicesChanged s"
  "deviceMutex (perform_all as s) = deviceMutex s"
  "threads (perform_all as s) = threads s"
  "next_ref (perform_all as s) = next_ref s"
  "socket_ok (perform_all as s) = socket_ok s"
  "source_ok (perform_all as s) = source_ok s"
  by (induction as arbitrary: s, simp_all)+

lemma perform_all_trace:
  "trace (perform_all as s) =
     trace s @ map (\<lambda>a. \<lparr>act = a, lock_at = deviceMutex s, changed_at = devicesChanged s,
                          pending_at = pendingEvents s\<rparr>) as"
  by (induction as arbitrary: s) simp_all

lemma debug_fields [simp]:
  "heap (debug m s) = heap s"
  "connectedDevices (debug m s) = connectedDevices s"
  "emitter (debug m s) = emitter s"
  "pendingEvents (debug m s) = pendingEvents s"
  "devicesChanged (debug m s) = devicesChanged s"
  "deviceMutex (debug m s) = deviceMutex s"
  "threads (debug m s) = threads s"
  "next_ref (debug m s) = next_ref s"
  "socket_ok (debug m s) = socket_ok s"
  "source_ok (debug m s) = source_ok s"
  by (simp_all add: debug_def)

lemma release_log_fields [simp]:
  "heap (release_log d s) = heap s"
  "connectedDevices (release_log d s) = connectedDevices s"
  "emitter (release_log d s) = emitter s"
  "pendingEvents (release_log d s) = pendingEvents s"
  "devicesChanged (release_log d s) = devicesChanged s"
  "deviceMutex (release_log d s) = deviceMutex s"
  "threads (release_log d s) = threads s"
  "next_ref (release_log d s) = next_ref s"
  "socket_ok (release_log d s) = socket_ok s"
  "source_ok (release_log d s) = source_ok s"
  by (simp_all add: release_log_def Let_def split: option.splits)

lemma release_pending_fields [simp]:
  "heap (release_pending s) = heap s"
  "connectedDevices (release_pending s) = connectedDevices s"
  "emitter (release_pending s) = emitter s"
  "devicesChanged (release_pending s) = devicesChanged s"
  "deviceMutex (release_pending s) = deviceMutex s"
  "threads (release_pending s) = threads s"
  "next_ref (release_pending s) = next_ref s"
  by (simp_all add: release_pending_def Let_def)

lemma getDeviceInfo_end_fields [simp]:
  "heap (getDeviceInfo_end p d calls s) = (heap s)(p \<mapsto> fst (disconnect False d))"
  "connectedDevices (getDeviceInfo_end p d calls s) = connectedDevices s"
  "emitter (getDeviceInfo_end p d calls s) = emitter s"
  "devicesChanged (getDeviceInfo_end p d calls s) = devicesChanged s"
  "deviceMutex (getDeviceInfo_end p d calls s) = Unlocked"
  "threads (getDeviceInfo_end p d calls s) = threads s"
  "next_ref (getDeviceInfo_end p d calls s) = next_ref s"
  by (simp_all add: getDeviceInfo_end_def Let_def split: prod.splits)

lemma Device_delete_fields [simp]:
  "heap (Device_delete p d s) = (heap s)(p := None)"
  "connectedDevices (Device_delete p d s) = connectedDevices s"
  "emitter (Device_delete p d s) = emitter s"
  "pendingEvents (Device_delete p d s) = pendingEvents s"
  "devicesChanged (Device_delete p d s) = devicesChanged s"
  "deviceMutex (Device_delete p d s) = deviceMutex s"
  "threads (Device_delete p d s) = threads s"
  "next_ref (Device_delete p d s) = next_ref s"
  by (simp_all add: Device_delete_def Let_def split: prod.splits)


lemma udid_disconnect [simp]: "udid (fst (disconnect f d)) = udid d"
  by (simp add: disconnect_def)

lemma udid_set_prop [simp]: "udid (set_prop k i d) = udid d"
  by (simp add: set_prop_def split: option.splits)

lemma handle_set_prop [simp]: "handle (set_prop k i d) = handle d"
  by (simp add: set_prop_def split: option.splits)

lemma foldl_set_prop:
  "udid (foldl (\<lambda>d (key, ident). set_prop key ident d) d ks) = udid d \<and>
   handle (foldl (\<lambda>d (key, ident). set_prop key ident d) d ks) = handle d"
  by (induction ks arbitrary: d) (auto split: prod.splits)

lemma set_info_fields [simp]: "udid (set_info d) = udid d" "handle (set_info d) = handle d"
  by (simp_all add: set_info_def foldl_set_prop)



section \<open>What a notification and a thread do to the globals\<close>

lemma getDeviceInfo_end_trace:
  "take (length (trace s)) (trace (getDeviceInfo_end p d calls s)) = trace s \<and>
   list_all (\<lambda>e. lock_at e = deviceMutex s)
     (drop (length (trace s)) (trace (getDeviceInfo_end p d calls s)))"
  by (auto simp: getDeviceInfo_end_def release_pending_def Let_def perform_all_trace
        list_all_iff split: prod.splits)

lemma on_device_notification_attach:
  assumes "connectedDevices s (AMDeviceCopyDeviceIdentifier (dev info)) = None"
    and "msg info = ADNCI_MSG_CONNECTED"
  shows "\<exists>s'. on_device_notification info s = Some s' \<and>
           heap s' = (heap s)(next_ref s \<mapsto> Device_new (dev info)) \<and>
           connectedDevices s' = connectedDevices s \<and>
           threads s' = threads s @ [next_ref s] \<and>
           next_ref s' = Suc (next_ref s) \<and>
           emitter s' = emitter s \<and>
           devicesChanged s' = devicesChanged s \<and>
           deviceMutex s' = deviceMutex s \<and>
           pendingEvents s' = max 0 (pendingEvents s) + 1 \<and>
           map act (trace s') =
             map act (trace s) @ [New_Device (next_ref s)] @
               (if emitter s
                then [Emit ''debug'' (Some (''Device connected, getting device info: '' @
                        c_str (AMDeviceCopyDeviceIdentifier (dev info))))]
                else []) @ [Thread (next_ref s)] \<and>
           pending_at (last (trace s')) = max 0 (pendingEvents s) + 1"
  using assms
  by (simp add: on_device_notification_def props_udid_def Device_new_def debug_def Let_def)





section \<open>Further facts about notifications and threads\<close>



lemma getDeviceInfo_connectedDevices:
  assumes "getDeviceInfo p s = Some t" and "heap s p = Some d"
  shows "connectedDevices t =
           (if connectedDevices s (udid d) = None then (connectedDevices s)(udid d \<mapsto> p)
            else connectedDevices s)"
  using assms
  by (auto simp: getDeviceInfo_def Let_def split: option.splits prod.splits)




section \<open>Notifications and threads in any order\<close>









section \<open>The enrichment thread and the mutex of the dictionary\<close>

text \<open>
  C3, as stated, would have the thread call into the device without holding the mutex of
  the dictionary. In the run of the thread for the example device every call into
  MobileDevice is made while the mutex is held exclusively.
\<close>

theorem getDeviceInfo_io_under_lock:
  "map_option (\<lambda>s. device_io (trace s))
     (run [Notification (attach iphone), Thread_runs] init) =
   Some
     [(''AMDeviceConnect'', Exclusive), (''AMDeviceIsPaired'', Exclusive),
      (''AMDeviceValidatePairing'', Exclusive), (''AMDeviceStartSession'', Exclusive),
      (''AMDeviceCopyValue'', Exclusive), (''AMDeviceCopyValue'', Exclusive),
      (''AMDeviceCopyValue'', Exclusive), (''AMDeviceCopyValue'', Exclusive),
      (''AMDeviceCopyValue'', Exclusive), (''AMDeviceCopyValue'', Exclusive),
      (''AMDeviceCopyValue'', Exclusive), (''AMDeviceCopyValue'', Exclusive),
      (''AMDeviceCopyValue'', Exclusive), (''AMDeviceCopyValue'', Exclusive),
      (''AMDeviceCopyValue'', Exclusive), (''AMDeviceStopSession'', Exclusive),
      (''AMDeviceDisconnect'', Exclusive)]"
  by code_simp

text \<open>
  C3, amended: an enrichment thread takes the mutex of the dictionary exclusively in its
  first statement and holds it until it returns: everything it does (connect, pair,
  session, property reads, disconnect, the release of the counter) is done under the
  exclusive lock, which is free again when the thread has returned.
\<close>

theorem getDeviceInfo_holds_lock:
  assumes "getDeviceInfo device s = Some s'"
  shows "take (length (trace s)) (trace s') = trace s \<and>
         list_all (\<lambda>e. lock_at e = Exclusive) (drop (length (trace s)) (trace s')) \<and>
         deviceMutex s' = Unlocked"
proof -
  from assms obtain d where d: "heap s device = Some d"
    by (auto simp: getDeviceInfo_def split: option.splits)
  define s3 where "s3 = (if connectedDevices s (udid d) = None
      then s\<lparr>deviceMutex := Exclusive, devicesChanged := True,
             connectedDevices := (connectedDevices s)(udid d \<mapsto> device)\<rparr>
      else s\<lparr>deviceMutex := Exclusive, devicesChanged := True\<rparr>)"
  have tr: "trace s3 = trace s" and lk: "deviceMutex s3 = Exclusive"
    by (simp_all add: s3_def)
  from assms d obtain d' calls where "s' = getDeviceInfo_end device d' calls s3"
    by (auto simp: getDeviceInfo_def s3_def Let_def split: option.splits prod.splits if_splits)
  with getDeviceInfo_end_trace[of s3 device d' calls] tr lk show ?thesis
    by simp
qed

theorem getDeviceInfo_holds_lock_witness:
  "\<exists>s s'. on_device_notification (attach iphone) init = Some s \<and>
      getDeviceInfo 0 s = Some s' \<and>
      take (length (trace s)) (trace s') = trace s \<and>
      list_all (\<lambda>e. lock_at e = Exclusive) (drop (length (trace s)) (trace s')) \<and>
      drop (length (trace s)) (trace s') \<noteq> [] \<and>
      deviceMutex s' = Unlocked"
proof -
  have "on_device_notification (attach iphone) init \<noteq> None"
    by code_simp
  then obtain s where s: "on_device_notification (attach iphone) init = Some s"
    by blast
  have "getDeviceInfo 0 (the (on_device_notification (attach iphone) init)) \<noteq> None"
    by code_simp
  with s obtain s' where s': "getDeviceInfo 0 s = Some s'"
    by auto
  have "length (trace (the (getDeviceInfo 0 (the (on_device_notification (attach iphone) init)))))
          > length (trace (the (on_device_notification (attach iphone) init)))"
    by code_simp
  with s s' have "drop (length (trace s)) (trace s') \<noteq> []"
    by simp
  with getDeviceInfo_holds_lock[OF s'] s s' show ?thesis
    by blast
qed

section \<open>Release of the log subscription on detach\<close>

text \<open>
  C5 asks that the listener, the run-loop source and the socket of a Device be released
  exactly once, when the Device is destroyed. The code releases each of them twice on a
  detach: once in lines 411-419 of the callback, which leave the pointers as they are, and
  once more in the destructor that line 421 runs. Here the example device is attached,
  its thread runs, \<^verbatim>\<open>log\<close> installs listener 1, socket 2 and source 3 (none of them
  released so far), and the detach notification arrives.
\<close>

theorem detach_releases_log_twice:
  "(case iphone_logging of
      None \<Rightarrow> None
    | Some (e, s) \<Rightarrow>
        map_option
          (\<lambda>s'. (e, map_option logCallback (heap s 0), map_option logSource (heap s 0),
                 map_option logSocket (heap s 0),
                 [times_done (Delete_Listener 1) s, times_done (CFRelease 3) s,
                  times_done (CFRelease 2) s],
                 [times_done (Delete_Listener 1) s', times_done (CFRelease 3) s',
                  times_done (CFRelease 2) s'],
                 heap s' 0 = None))
          (on_device_notification (detach iphone) s)) =
   Some (None, Some (Some 1), Some (Some 3), Some (Some 2), [0, 0, 0], [2, 2, 2], True)"
  by code_simp

section \<open>Failures in the enrichment thread\<close>

lemma connect_throws:
  "connect d = (Some e, d1, calls) \<Longrightarrow>
   \<not> connected d > 0 \<and> d1 = d\<lparr>connected := connected d + 1\<rparr>"
  by (auto simp: connect_def Let_def split: if_splits)

lemma getDeviceInfo_exception_swallowed:
  assumes "heap s p = Some d" and "connect d = (Some e, d1, calls)"
  shows "\<exists>s'. getDeviceInfo p s = Some s' \<and>
           connectedDevices s' (udid d) \<noteq> None \<and>
           heap s' p = Some (d\<lparr>connected := 0\<rparr>) \<and>
           pendingEvents s' =
             (if pendingEvents s > 0 then pendingEvents s - 1 else pendingEvents s) \<and>
           map act (drop (length (trace s)) (trace s')) =
             map (Call p) (calls @ [''AMDeviceStopSession'', ''AMDeviceDisconnect'']) @
               (if pendingEvents s' = 0 then [Notify_one] else [])"
proof -
  from connect_throws[OF assms(2)] have c: "\<not> connected d > 0"
    and d1: "d1 = d\<lparr>connected := connected d + 1\<rparr>"
    by simp_all
  from c d1 have dis: "disconnect False d1 =
      (d\<lparr>connected := 0\<rparr>, [''AMDeviceStopSession'', ''AMDeviceDisconnect''])"
    by (simp add: disconnect_def)
  from assms dis show ?thesis
    by (simp add: getDeviceInfo_def getDeviceInfo_end_def release_pending_def Let_def
          perform_all_trace)
qed

text \<open>
  C8 asks that any failure while the thread fetches the properties be swallowed, the
  counter released and the Device kept. For a device that connects and whose "HostAttached"
  value is not available, the thread passes \<^verbatim>\<open>NULL\<close> to \<^verbatim>\<open>CFNumberGetValue\<close> and
  \<^verbatim>\<open>CFRelease\<close> and the process ends there: the thread does not return, and the counter
  raised by the callback stays at 1, whereas for the same device with the value available
  the thread returns and the counter is back at 0. (A failure that \<open>connect\<close> throws is
  swallowed, see \<open>getDeviceInfo_exception_swallowed\<close>; a string property that is not
  available is skipped by \<open>set_prop\<close>.)
\<close>

theorem getDeviceInfo_HostAttached_NULL:
  "map_option (\<lambda>s. (threads s, pendingEvents s))
     (on_device_notification (attach (iphone\<lparr>AMDeviceCopyValue_HostAttached := None\<rparr>)) init) =
     Some ([0], 1) \<and>
   run [Notification (attach (iphone\<lparr>AMDeviceCopyValue_HostAttached := None\<rparr>)), Thread_runs]
     init = None \<and>
   map_option (\<lambda>s. (threads s, pendingEvents s))
     (run [Notification (attach iphone), Thread_runs] init) = Some ([], 0)"
  by code_simp


section \<open>The order of events on an attach\<close>

lemma on_device_notification_attach_trace:
  assumes "connectedDevices s (AMDeviceCopyDeviceIdentifier (dev info)) = None"
    and "msg info = ADNCI_MSG_CONNECTED"
    and "on_device_notification info s = Some s'"
  shows "trace s' =
           trace s @
           [\<lparr>act = New_Device (next_ref s), lock_at = deviceMutex s,
             changed_at = devicesChanged s, pending_at = pendingEvents s\<rparr>] @
           (if emitter s
            then [\<lparr>act = Emit ''debug'' (Some (''Device connected, getting device info: '' @
                          c_str (AMDeviceCopyDeviceIdentifier (dev info)))),
                   lock_at = deviceMutex s, changed_at = devicesChanged s,
                   pending_at = pendingEvents s\<rparr>]
            else []) @
           [\<lparr>act = Thread (next_ref s), lock_at = deviceMutex s,
             changed_at = devicesChanged s, pending_at = max 0 (pendingEvents s) + 1\<rparr>]"
  using assms
  by (auto simp: on_device_notification_def props_udid_def Device_new_def debug_def Let_def)

text \<open>
  C4, as stated, would have the record in the dictionary when the thread is started. When
  the callback returns from the attach of the example device to the initial state, the
  thread has been started, the counter is 1, and the dictionary has no entry for the
  identifier.
\<close>

theorem thread_started_before_registered:
  "map_option (\<lambda>s. (threads s, connectedDevices s ''A'', pendingEvents s))
     (on_device_notification (attach iphone) init) = Some ([0], None, 1)"
  by code_simp

text \<open>
  C4, amended: on an attach notification for an identifier that is not in the dictionary,
  the callback constructs the Device (which takes the identifier from the handle) while
  the counter still has its old value, raises the counter (from 0 if it was negative) and
  then starts the thread, in this order; it does not change the dictionary, so the Device
  is not registered when its thread is started. The thread, in whatever state it runs
  and returns, enters the Device into the dictionary if the identifier is not in it then;
  if the identifier has been registered in the meantime (a second attach delivered before
  the first thread has run), the thread leaves the dictionary as it is.
\<close>

theorem on_device_notification_attach_order:
  assumes "connectedDevices s (AMDeviceCopyDeviceIdentifier (dev info)) = None"
    and "msg info = ADNCI_MSG_CONNECTED"
  shows "\<exists>s'. on_device_notification info s = Some s' \<and>
           heap s' (next_ref s) = Some (Device_new (dev info)) \<and>
           udid (Device_new (dev info)) = AMDeviceCopyDeviceIdentifier (dev info) \<and>
           connectedDevices s' = connectedDevices s \<and>
           pendingEvents s' = max 0 (pendingEvents s) + 1 \<and>
           threads s' = threads s @ [next_ref s] \<and>
           trace s' =
             trace s @
             [\<lparr>act = New_Device (next_ref s), lock_at = deviceMutex s,
               changed_at = devicesChanged s, pending_at = pendingEvents s\<rparr>] @
             (if emitter s
              then [\<lparr>act = Emit ''debug'' (Some (''Device connected, getting device info: '' @
                            c_str (AMDeviceCopyDeviceIdentifier (dev info)))),
                     lock_at = deviceMutex s, changed_at = devicesChanged s,
                     pending_at = pendingEvents s\<rparr>]
              else []) @
             [\<lparr>act = Thread (next_ref s), lock_at = deviceMutex s,
               changed_at = devicesChanged s, pending_at = max 0 (pendingEvents s) + 1\<rparr>] \<and>
           (\<forall>t t' d. heap t (next_ref s) = Some d \<and>
                udid d = AMDeviceCopyDeviceIdentifier (dev info) \<and>
                getDeviceInfo (next_ref s) t = Some t' \<longrightarrow>
                connectedDevices t' =
                  (if connectedDevices t (AMDeviceCopyDeviceIdentifier (dev info)) = None
                   then (connectedDevices t)
                          (AMDeviceCopyDeviceIdentifier (dev info) \<mapsto> next_ref s)
                   else connectedDevices t))"
proof -
  from on_device_notification_attach[OF assms] obtain s' where
    s': "on_device_notification info s = Some s'"
      "heap s' = (heap s)(next_ref s \<mapsto> Device_new (dev info))"
      "connectedDevices s' = connectedDevices s"
      "threads s' = threads s @ [next_ref s]"
      "pendingEvents s' = max 0 (pendingEvents s) + 1"
    by blast
  note tr = on_device_notification_attach_trace[OF assms s'(1)]
  have u: "udid (Device_new (dev info)) = AMDeviceCopyDeviceIdentifier (dev info)"
    by (simp add: Device_new_def)
  have h: "heap s' (next_ref s) = Some (Device_new (dev info))"
    using s'(2) by simp
  have w: "connectedDevices t' =
      (if connectedDevices t (AMDeviceCopyDeviceIdentifier (dev info)) = None
       then (connectedDevices t)(AMDeviceCopyDeviceIdentifier (dev info) \<mapsto> next_ref s)
       else connectedDevices t)"
    if "heap t (next_ref s) = Some d \<and> udid d = AMDeviceCopyDeviceIdentifier (dev info) \<and>
        getDeviceInfo (next_ref s) t = Some t'" for t t' d
  proof -
    from that have a: "getDeviceInfo (next_ref s) t = Some t'" "heap t (next_ref s) = Some d"
      and b: "udid d = AMDeviceCopyDeviceIdentifier (dev info)"
      by simp_all
    from getDeviceInfo_connectedDevices[OF a] b show ?thesis
      by simp
  qed
  from s'(1) h u s'(3) s'(5) s'(4) tr w show ?thesis
    by blast
qed

theorem on_device_notification_attach_order_witness:
  "connectedDevices init (AMDeviceCopyDeviceIdentifier (dev (attach iphone))) = None \<and>
   msg (attach iphone) = ADNCI_MSG_CONNECTED \<and>
   (\<exists>s' t. on_device_notification (attach iphone) init = Some s' \<and>
      heap s' 0 = Some (Device_new iphone) \<and>
      connectedDevices s' ''A'' = None \<and>
      pendingEvents s' = 1 \<and>
      threads s' = [0] \<and>
      trace s' =
        [\<lparr>act = New_Device 0, lock_at = Unlocked, changed_at = False, pending_at = 0\<rparr>,
         \<lparr>act = Thread 0, lock_at = Unlocked, changed_at = False, pending_at = 1\<rparr>] \<and>
      getDeviceInfo 0 s' = Some t \<and>
      connectedDevices t ''A'' = Some 0) \<and>
   (\<exists>s1 s2 t t'. on_device_notification (attach iphone) init = Some s1 \<and>
      on_device_notification (attach iphone) s1 = Some s2 \<and>
      threads s2 = [0, 1] \<and>
      run [Thread_runs] s2 = Some t \<and>
      connectedDevices t ''A'' = Some 0 \<and>
      getDeviceInfo 1 t = Some t' \<and>
      connectedDevices t' = connectedDevices t)"
proof -
  let ?a = "attach iphone"
  have h1: "connectedDevices init (AMDeviceCopyDeviceIdentifier (dev ?a)) = None"
    by (simp add: init_def)
  have h2: "msg ?a = ADNCI_MSG_CONNECTED"
    by (simp add: attach_def)
  have id: "AMDeviceCopyDeviceIdentifier (dev ?a) = ''A''"
    by (simp add: attach_def iphone_def)
  have n0: "next_ref init = 0" "pendingEvents init = 0" "emitter init = False"
    "deviceMutex init = Unlocked" "devicesChanged init = False" "trace init = []"
    "threads init = []"
    by (simp_all add: init_def)
  have dv: "dev ?a = iphone"
    by (simp add: attach_def)
  have idp: "AMDeviceCopyDeviceIdentifier iphone = ''A''"
    by (simp add: iphone_def)
  from on_device_notification_attach_order[OF h1 h2] obtain s' where
    s': "on_device_notification ?a init = Some s'"
      "heap s' 0 = Some (Device_new iphone)"
      "connectedDevices s' = connectedDevices init"
      "pendingEvents s' = 1"
      "threads s' = [0]"
      "trace s' =
        [\<lparr>act = New_Device 0, lock_at = Unlocked, changed_at = False, pending_at = 0\<rparr>,
         \<lparr>act = Thread 0, lock_at = Unlocked, changed_at = False, pending_at = 1\<rparr>]"
    and w0: "\<forall>t t' d. heap t 0 = Some d \<and> udid d = ''A'' \<and> getDeviceInfo 0 t = Some t' \<longrightarrow>
              connectedDevices t' =
                (if connectedDevices t ''A'' = None then (connectedDevices t)(''A'' \<mapsto> 0)
                 else connectedDevices t)"
    unfolding n0 dv idp by auto
  have c0: "connectedDevices s' ''A'' = None"
    using s'(3) by (simp add: init_def)
  have "getDeviceInfo 0 (the (on_device_notification ?a init)) \<noteq> None"
    by code_simp
  with s'(1) obtain t where t: "getDeviceInfo 0 s' = Some t"
    by auto
  have "udid (Device_new iphone) = ''A''"
    by (simp add: Device_new_def iphone_def)
  with w0 s'(2) t have "connectedDevices t =
      (if connectedDevices s' ''A'' = None then (connectedDevices s')(''A'' \<mapsto> 0)
       else connectedDevices s')"
    by blast
  with c0 have "connectedDevices t ''A'' = Some 0"
    by simp
  with s' c0 t have first: "\<exists>s' t. on_device_notification ?a init = Some s' \<and>
      heap s' 0 = Some (Device_new iphone) \<and>
      connectedDevices s' ''A'' = None \<and>
      pendingEvents s' = 1 \<and>
      threads s' = [0] \<and>
      trace s' =
        [\<lparr>act = New_Device 0, lock_at = Unlocked, changed_at = False, pending_at = 0\<rparr>,
         \<lparr>act = Thread 0, lock_at = Unlocked, changed_at = False, pending_at = 1\<rparr>] \<and>
      getDeviceInfo 0 s' = Some t \<and>
      connectedDevices t ''A'' = Some 0"
    by blast
  have "on_device_notification ?a init \<noteq> None"
    by code_simp
  then obtain s1 where s1: "on_device_notification ?a init = Some s1"
    by blast
  have "connectedDevices (the (on_device_notification ?a init)) ''A'' = None \<and>
        next_ref (the (on_device_notification ?a init)) = 1"
    by code_simp
  with s1 id have a1: "connectedDevices s1 (AMDeviceCopyDeviceIdentifier (dev ?a)) = None"
    and n1: "next_ref s1 = 1"
    by simp_all
  from on_device_notification_attach_order[OF a1 h2] n1 obtain s2 where
    s2: "on_device_notification ?a s1 = Some s2"
    and w: "\<forall>t t' d. heap t 1 = Some d \<and> udid d = AMDeviceCopyDeviceIdentifier (dev ?a) \<and>
              getDeviceInfo 1 t = Some t' \<longrightarrow>
              connectedDevices t' =
                (if connectedDevices t (AMDeviceCopyDeviceIdentifier (dev ?a)) = None
                 then (connectedDevices t)(AMDeviceCopyDeviceIdentifier (dev ?a) \<mapsto> 1)
                 else connectedDevices t)"
    by auto
  let ?s2 = "the (on_device_notification ?a (the (on_device_notification ?a init)))"
  have "threads ?s2 = [0, 1] \<and> run [Thread_runs] ?s2 \<noteq> None"
    by code_simp
  with s1 s2 obtain t where th: "threads s2 = [0, 1]" and t: "run [Thread_runs] s2 = Some t"
    by auto
  have "connectedDevices (the (run [Thread_runs] ?s2)) ''A'' = Some 0 \<and>
        heap (the (run [Thread_runs] ?s2)) 1 \<noteq> None \<and>
        udid (the (heap (the (run [Thread_runs] ?s2)) 1)) = ''A'' \<and>
        getDeviceInfo 1 (the (run [Thread_runs] ?s2)) \<noteq> None"
    by code_simp
  with s1 s2 t obtain d t' where ct: "connectedDevices t ''A'' = Some 0"
    and d: "heap t 1 = Some d" "udid d = ''A''"
    and t': "getDeviceInfo 1 t = Some t'"
    by auto
  from d(2) id have "udid d = AMDeviceCopyDeviceIdentifier (dev ?a)"
    by simp
  with w d(1) t' have "connectedDevices t' =
      (if connectedDevices t (AMDeviceCopyDeviceIdentifier (dev ?a)) = None
       then (connectedDevices t)(AMDeviceCopyDeviceIdentifier (dev ?a) \<mapsto> 1)
       else connectedDevices t)"
    by blast
  with id ct have "connectedDevices t' = connectedDevices t"
    by simp
  with s1 s2 th t ct t' have second: "\<exists>s1 s2 t t'. on_device_notification ?a init = Some s1 \<and>
      on_device_notification ?a s1 = Some s2 \<and>
      threads s2 = [0, 1] \<and>
      run [Thread_runs] s2 = Some t \<and>
      connectedDevices t ''A'' = Some 0 \<and>
      getDeviceInfo 1 t = Some t' \<and>
      connectedDevices t' = connectedDevices t"
    by blast
  from h1 h2 first second show ?thesis
    by (intro conjI)
qed


section \<open>The pump\<close>

lemma pump_emit_fields [simp]:
  "heap (pump_emit s) = heap s"
  "connectedDevices (pump_emit s) = connectedDevices s"
  "threads (pump_emit s) = threads s"
  by (simp_all add: pump_emit_def Let_def)





lemma times_done_update [simp]:
  "times_done e (s\<lparr>heap := h\<rparr>) = times_done e s"
  "times_done e (s\<lparr>connectedDevices := c\<rparr>) = times_done e s"
  "times_done e (s\<lparr>pendingEvents := n\<rparr>) = times_done e s"
  "times_done e (s\<lparr>devicesChanged := b\<rparr>) = times_done e s"
  "times_done e (s\<lparr>deviceMutex := l\<rparr>) = times_done e s"
  "times_done e (s\<lparr>threads := ts\<rparr>) = times_done e s"
  "times_done e (s\<lparr>next_ref := r\<rparr>) = times_done e s"
  by (simp_all add: times_done_def)














section \<open>The dictionary and the attached devices\<close>







section \<open>Errors of the log binding\<close>

text \<open>
  C7, as stated, would have \<^verbatim>\<open>log\<close> fail with the not-connected error for every
  identifier that is not in the dictionary. The dictionary is searched for the C string of
  the identifier: with the example device registered under \<open>A\<close>, the call with the
  identifier \<open>A\<close>, null, \<open>B\<close>, which is not in the dictionary, throws nothing
  and installs listener 1 on the Device of \<open>A\<close>.
\<close>

theorem log_acts_on_c_string:
  "(case run [Notification (attach iphone), Thread_runs] init of
      None \<Rightarrow> None
    | Some s \<Rightarrow>
        map_option
          (\<lambda>(e, s'). (connectedDevices s (''A'' @ [NUL] @ ''B''), c_str (''A'' @ [NUL] @ ''B''),
                       e, map_option logCallback (heap s 0), map_option logCallback (heap s' 0)))
          (log [JS_string (''A'' @ [NUL] @ ''B''), JS_function 5] s)) =
   Some (None, ''A'', None, Some None, Some (Some 1))"
  by code_simp

text \<open>
  C7, amended: \<^verbatim>\<open>log\<close> called with a non-empty identifier string and a function
  reads the identifier as a C string, up to its first null byte (an identifier without a
  null byte is read whole). If that string is not in the dictionary the call throws the
  not-connected error and changes nothing. If it is there and the Device is not attached
  to the host, the call throws the not-host-connected error; no Device and no dictionary
  entry is changed, and nothing but the Listener object of line 622 has been created. If
  the Device is attached to the host and \<open>connect\<close> or \<open>startService\<close> throws, the
  call throws that error.
\<close>

theorem log_errors:
  assumes "2 \<le> length info" and "info ! 0 = JS_string udidHandle" and "udidHandle \<noteq> []"
    and "info ! 1 = JS_function f"
  shows "(connectedDevices s (c_str udidHandle) = None \<longrightarrow>
            log info s = Some (Some (Not_connected (c_str udidHandle)), s)) \<and>
         (\<forall>p d. connectedDevices s (c_str udidHandle) = Some p \<and> heap s p = Some d \<and>
              \<not> hostConnected d \<longrightarrow>
            (\<exists>s'. log info s = Some (Some Not_host_connected, s') \<and>
               heap s' = heap s \<and> connectedDevices s' = connectedDevices s \<and>
               map act (trace s') = map act (trace s) @ [New_Listener (next_ref s) f])) \<and>
         (\<forall>p d e. connectedDevices s (c_str udidHandle) = Some p \<and> heap s p = Some d \<and>
              hostConnected d \<and>
              (fst (connect d) = Some e \<or>
               fst (connect d) = None \<and>
               fst (startService AMSVC_SYSLOG_RELAY (fst (snd (connect d)))) = Some e) \<longrightarrow>
            (\<exists>s'. log info s = Some (Some (Runtime e), s'))) \<and>
         (NUL \<notin> set udidHandle \<longrightarrow> c_str udidHandle = udidHandle)"
proof (intro conjI allI impI)
  assume "connectedDevices s (c_str udidHandle) = None"
  with assms show "log info s = Some (Some (Not_connected (c_str udidHandle)), s)"
    by (simp add: log_def Let_def)
next
  fix p d
  assume "connectedDevices s (c_str udidHandle) = Some p \<and> heap s p = Some d \<and>
          \<not> hostConnected d"
  with assms show "\<exists>s'. log info s = Some (Some Not_host_connected, s') \<and>
               heap s' = heap s \<and> connectedDevices s' = connectedDevices s \<and>
               map act (trace s') = map act (trace s) @ [New_Listener (next_ref s) f]"
    by (simp add: log_def Let_def)
next
  fix p d e
  assume a: "connectedDevices s (c_str udidHandle) = Some p \<and> heap s p = Some d \<and>
              hostConnected d \<and>
              (fst (connect d) = Some e \<or>
               fst (connect d) = None \<and>
               fst (startService AMSVC_SYSLOG_RELAY (fst (snd (connect d)))) = Some e)"
  obtain r d1 calls where c: "connect d = (r, d1, calls)"
    by (cases "connect d")
  obtain r' conn where sv: "startService AMSVC_SYSLOG_RELAY d1 = (r', conn)"
    by (cases "startService AMSVC_SYSLOG_RELAY d1")
  from a c sv assms show "\<exists>s'. log info s = Some (Some (Runtime e), s')"
    by (auto simp: log_def Let_def)
next
  assume "NUL \<notin> set udidHandle"
  then show "c_str udidHandle = udidHandle"
    by (auto simp: c_str_def)
qed


theorem log_errors_witness:
  "2 \<le> length [JS_string ''A'', JS_function 5] \<and> ''A'' \<noteq> [] \<and> c_str ''A'' = ''A'' \<and>
   log [JS_string ''A'', JS_function 5] init = Some (Some (Not_connected ''A''), init) \<and>
   (\<exists>s s'. run [Notification (attach (iphone\<lparr>AMDeviceCopyValue_HostAttached := Some 0\<rparr>)),
                  Thread_runs] init = Some s \<and>
      connectedDevices s ''A'' = Some 0 \<and>
      log [JS_string ''A'', JS_function 5] s = Some (Some Not_host_connected, s') \<and>
      heap s' = heap s \<and> connectedDevices s' = connectedDevices s) \<and>
   (\<exists>s s'. run [Notification (attach (iphone\<lparr>AMDeviceStartService := MDERR_SYSCALL\<rparr>)),
                  Thread_runs] init = Some s \<and>
      connectedDevices s ''A'' = Some 0 \<and>
      log [JS_string ''A'', JS_function 5] s =
        Some (Some (Runtime (Service_syscall AMSVC_SYSLOG_RELAY MDERR_SYSCALL)), s')) \<and>
   connectedDevices iphone_gone ''A'' = Some 0 \<and>
   (\<exists>s'. log [JS_string ''A'', JS_function 5] iphone_gone =
           Some (Some (Runtime Connect_setsockopt), s'))"
proof -
  let ?info = "[JS_string ''A'', JS_function 5]"
  have h: "2 \<le> length ?info" "?info ! 0 = JS_string ''A''" "''A'' \<noteq> []"
    "?info ! 1 = JS_function 5"
    by simp_all
  note th = log_errors[OF h]
  have cs: "c_str ''A'' = ''A''"
    using th[of init] by (simp add: NUL_def)
  have "connectedDevices init (c_str ''A'') = None"
    by (simp add: init_def)
  with th[of init] have "log ?info init = Some (Some (Not_connected (c_str ''A'')), init)"
    by blast
  then have 1: "log ?info init = Some (Some (Not_connected ''A''), init)"
    by (simp only: cs)
  let ?w = "run [Notification (attach (iphone\<lparr>AMDeviceCopyValue_HostAttached := Some 0\<rparr>)),
                 Thread_runs] init"
  have "?w \<noteq> None"
    by code_simp
  then obtain s where s: "?w = Some s"
    by blast
  have "connectedDevices (the ?w) ''A'' = Some 0"
    by code_simp
  with s have c: "connectedDevices s ''A'' = Some 0"
    by simp
  then have c': "connectedDevices s (c_str ''A'') = Some 0"
    by (simp only: cs)
  have "heap (the ?w) 0 \<noteq> None"
    by code_simp
  with s obtain d where d: "heap s 0 = Some d"
    by auto
  have "\<not> hostConnected (the (heap (the ?w) 0))"
    by code_simp
  with s d have "\<not> hostConnected d"
    by simp
  with th[of s] c' d obtain s' where
    "log ?info s = Some (Some Not_host_connected, s')" "heap s' = heap s"
    "connectedDevices s' = connectedDevices s"
    by blast
  with s c have 2: "\<exists>s s'. ?w = Some s \<and> connectedDevices s ''A'' = Some 0 \<and>
      log ?info s = Some (Some Not_host_connected, s') \<and>
      heap s' = heap s \<and> connectedDevices s' = connectedDevices s"
    by blast
  let ?v = "run [Notification (attach (iphone\<lparr>AMDeviceStartService := MDERR_SYSCALL\<rparr>)),
                 Thread_runs] init"
  have "?v \<noteq> None"
    by code_simp
  then obtain t where t: "?v = Some t"
    by blast
  have "connectedDevices (the ?v) ''A'' = Some 0"
    by code_simp
  with t have ct: "connectedDevices t ''A'' = Some 0"
    by simp
  then have ct': "connectedDevices t (c_str ''A'') = Some 0"
    by (simp only: cs)
  have "heap (the ?v) 0 \<noteq> None"
    by code_simp
  with t obtain dt where dt: "heap t 0 = Some dt"
    by auto
  have "hostConnected (the (heap (the ?v) 0)) \<and>
        fst (connect (the (heap (the ?v) 0))) = None \<and>
        fst (startService AMSVC_SYSLOG_RELAY (fst (snd (connect (the (heap (the ?v) 0)))))) =
          Some (Service_syscall AMSVC_SYSLOG_RELAY MDERR_SYSCALL)"
    by code_simp
  with t dt have "hostConnected dt \<and>
        (fst (connect dt) = Some (Service_syscall AMSVC_SYSLOG_RELAY MDERR_SYSCALL) \<or>
         fst (connect dt) = None \<and>
         fst (startService AMSVC_SYSLOG_RELAY (fst (snd (connect dt)))) =
          Some (Service_syscall AMSVC_SYSLOG_RELAY MDERR_SYSCALL))"
    by simp
  with th[of t] ct' dt obtain t' where
    "log ?info t = Some (Some (Runtime (Service_syscall AMSVC_SYSLOG_RELAY MDERR_SYSCALL)), t')"
    by blast
  with t ct have 3: "\<exists>s s'. ?v = Some s \<and> connectedDevices s ''A'' = Some 0 \<and>
      log ?info s = Some (Some (Runtime (Service_syscall AMSVC_SYSLOG_RELAY MDERR_SYSCALL)), s')"
    by blast
  have cg: "connectedDevices iphone_gone ''A'' = Some 0"
    by (simp add: iphone_gone_def)
  then have cg': "connectedDevices iphone_gone (c_str ''A'') = Some 0"
    by (simp only: cs)
  have "heap iphone_gone 0 \<noteq> None"
    by (simp add: iphone_gone_def)
  then obtain dg where dg: "heap iphone_gone 0 = Some dg"
    by blast
  have "hostConnected (the (heap iphone_gone 0)) \<and>
        fst (connect (the (heap iphone_gone 0))) = Some Connect_setsockopt"
    by code_simp
  with dg have "hostConnected dg \<and>
        (fst (connect dg) = Some Connect_setsockopt \<or>
         fst (connect dg) = None \<and>
         fst (startService AMSVC_SYSLOG_RELAY (fst (snd (connect dg)))) = Some Connect_setsockopt)"
    by simp
  with th[of iphone_gone] cg' dg have 4:
    "\<exists>s'. log ?info iphone_gone = Some (Some (Runtime Connect_setsockopt), s')"
    by blast
  from h(1,3) cs 1 2 3 cg 4 show ?thesis
    by (intro conjI)
qed


end
